theory Spec2Isabelle
  imports Complex_Main
begin

section \<open>Data model of App.tsx\<close>

text \<open>
  JavaScript numbers that the component only stores, copies and rounds are modelled as
  rationals (every finite double is one); strings are character lists.
\<close>

type_synonym number = rat

text \<open>\<^verbatim>\<open>interface RadioStation\<close>; the field \<^verbatim>\<open>id\<close> is written \<open>id'\<close>.\<close>

record RadioStation =
  id' :: string
  name :: string
  country :: string
  url :: string
  favicon :: string
  geo_lat :: number
  geo_long :: number
  city :: string

text \<open>\<^verbatim>\<open>interface WeatherData\<close>; the rounded temperature is an integer.\<close>

record WeatherData =
  temperature :: int
  description :: string
  icon :: string

section \<open>The search filter\<close>

text \<open>
  \<^verbatim>\<open>String.prototype.includes\<close> with its default position 0: the search string is
  looked for at index 0, 1, ... of the receiver, the first index being tried first.
  \<open>startsWith_at s q\<close> compares \<open>q\<close> with the code units of \<open>s\<close> from its head.
\<close>

fun startsWith_at :: "string \<Rightarrow> string \<Rightarrow> bool" where
  "startsWith_at s [] = True"
| "startsWith_at [] (q # qs) = False"
| "startsWith_at (c # cs) (q # qs) = (c = q \<and> startsWith_at cs qs)"

fun includes_str :: "string \<Rightarrow> string \<Rightarrow> bool" where
  "includes_str [] q = startsWith_at [] q"
| "includes_str (c # cs) q = (startsWith_at (c # cs) q \<or> includes_str cs q)"

text \<open>
  \<^verbatim>\<open>filteredStations\<close> (App.tsx, lines 129 to 133). The host's
  \<^verbatim>\<open>String.prototype.toLowerCase\<close> is not code of the component: it is the
  parameter \<open>toLowerCase\<close>, so that what is proved holds for every case mapping.
\<close>

definition filteredStations ::
  "(string \<Rightarrow> string) \<Rightarrow> RadioStation list \<Rightarrow> string \<Rightarrow> RadioStation list" where
  "filteredStations toLowerCase stations searchQuery =
     filter (\<lambda>station.
        includes_str (toLowerCase (name station)) (toLowerCase searchQuery) \<or>
        includes_str (toLowerCase (country station)) (toLowerCase searchQuery) \<or>
        includes_str (toLowerCase (city station)) (toLowerCase searchQuery))
      stations"

text \<open>
  The specification's wording, for comparison with the code: \<open>q\<close> is a case-insensitive
  substring of \<open>s\<close> when the lower-cased \<open>q\<close> occurs as a contiguous run inside the
  lower-cased \<open>s\<close>.
\<close>

definition ci_substring :: "(string \<Rightarrow> string) \<Rightarrow> string \<Rightarrow> string \<Rightarrow> bool" where
  "ci_substring toLowerCase q s =
     (\<exists>before after. toLowerCase s = before @ toLowerCase q @ after)"

definition spec_matches :: "(string \<Rightarrow> string) \<Rightarrow> string \<Rightarrow> RadioStation \<Rightarrow> bool" where
  "spec_matches toLowerCase q station =
     (ci_substring toLowerCase q (name station) \<or>
      ci_substring toLowerCase q (country station) \<or>
      ci_substring toLowerCase q (city station))"

text \<open>
  A case mapping to run the filter on: the letters \<open>A\<close> to \<open>Z\<close> go to \<open>a\<close> to
  \<open>z\<close>, every other character stays. It agrees with the host's mapping on
  ASCII text.
\<close>

definition ascii_lower :: "char \<Rightarrow> char" where
  "ascii_lower c =
     (case map_of (zip ''ABCDEFGHIJKLMNOPQRSTUVWXYZ'' ''abcdefghijklmnopqrstuvwxyz'') c of
        None \<Rightarrow> c
      | Some l \<Rightarrow> l)"

definition ascii_toLowerCase :: "string \<Rightarrow> string" where
  "ascii_toLowerCase s = map ascii_lower s"

text \<open>The station of the specification's scenarios.\<close>

definition jazz_fm :: RadioStation where
  "jazz_fm = \<lparr>id' = ''1'', name = ''Jazz FM'', country = ''France'', url = ''...'',
     favicon = ''...'', geo_lat = 4885 / 100, geo_long = 235 / 100, city = ''Paris''\<rparr>"

section \<open>Application state\<close>

text \<open>
  The outcome of an \<^verbatim>\<open>axios.get\<close> promise: it resolves with the response body or
  rejects with an error (here its message).
\<close>

datatype 'a response = Resolved 'a | Rejected string

text \<open>
  The body the weather service answers with, as far as \<^verbatim>\<open>fetchWeather\<close> reads it:
  \<^verbatim>\<open>main.temp\<close> and the entries of the array \<^verbatim>\<open>weather\<close>.
\<close>

record weather_entry =
  entry_description :: string
  entry_icon :: string

record weather_body =
  main_temp :: number
  weather :: "weather_entry list"

text \<open>The network requests the component issues, and the calls it makes on its audio handle.\<close>

datatype request = GetStations | GetWeather string

datatype audio_call = Pause | SetSrc string | Play

text \<open>
  The \<^verbatim>\<open>useState\<close> cells of \<^verbatim>\<open>App\<close> (lines 65 to 72). The audio element, the network
  and the console belong to the host: the state keeps the calls made on the audio handle
  (\<open>audio\<close>), the requests sent (\<open>requests\<close>) and the \<^verbatim>\<open>console.error\<close> lines
  (\<open>console\<close>, message and error), each in the order they happen.
\<close>

record App =
  stations :: "RadioStation list"
  searchQuery :: string
  loading :: bool
  currentStation :: "RadioStation option"
  isPlaying :: bool
  weatherData :: "WeatherData option"
  audio :: "audio_call list"
  mapCenter :: "number \<times> number"
  requests :: "request list"
  console :: "(string \<times> string) list"

definition App_init :: App where
  "App_init = \<lparr>stations = [], searchQuery = [], loading = True, currentStation = None,
     isPlaying = False, weatherData = None, audio = [], mapCenter = (20, 0),
     requests = [], console = []\<rparr>"

section \<open>The station loader\<close>

text \<open>
  \<^verbatim>\<open>fetchStations\<close> (lines 84 to 103) runs in two parts around its \<^verbatim>\<open>await\<close>:
  \<open>fetchStations_send\<close> issues the request, \<open>fetchStations_settle\<close> is the rest of the
  \<^verbatim>\<open>try\<close>/\<^verbatim>\<open>catch\<close>/\<^verbatim>\<open>finally\<close> once the promise has settled.
\<close>

definition fetchStations_send :: "App \<Rightarrow> App" where
  "fetchStations_send st = st\<lparr>requests := requests st @ [GetStations]\<rparr>"

definition fetchStations_settle :: "RadioStation list response \<Rightarrow> App \<Rightarrow> App" where
  "fetchStations_settle r st =
     (case r of
        Resolved data \<Rightarrow>
          (let st1 = st\<lparr>stations := data\<rparr>;
               st2 = (if length data > 0
                      then st1\<lparr>mapCenter := (geo_lat (data ! 0), geo_long (data ! 0))\<rparr>
                      else st1)
           in st2\<lparr>loading := False\<rparr>)
      | Rejected error \<Rightarrow>
          st\<lparr>console := console st @ [(''Error fetching stations:'', error)],
             loading := False\<rparr>)"

section \<open>The weather sidebar\<close>

text \<open>
  \<^verbatim>\<open>Math.round\<close>: the integer closest to the argument, the one closer to plus
  infinity when two are equally close.
\<close>

definition Math_round :: "number \<Rightarrow> int" where
  "Math_round x = (if x - of_int \<lfloor>x\<rfloor> < 1 / 2 then \<lfloor>x\<rfloor> else \<lfloor>x\<rfloor> + 1)"

text \<open>
  \<^verbatim>\<open>fetchWeather\<close> (lines 105 to 123), again split at its \<^verbatim>\<open>await\<close>. Reading
  \<^verbatim>\<open>weather[0].description\<close> of an empty array throws a TypeError inside the
  \<^verbatim>\<open>try\<close>, before \<^verbatim>\<open>setWeatherData\<close> is reached.
\<close>

definition fetchWeather_send :: "string \<Rightarrow> App \<Rightarrow> App" where
  "fetchWeather_send city_name st = st\<lparr>requests := requests st @ [GetWeather city_name]\<rparr>"

definition fetchWeather_settle :: "weather_body response \<Rightarrow> App \<Rightarrow> App" where
  "fetchWeather_settle r st =
     (case r of
        Resolved data \<Rightarrow>
          (case weather data of
             [] \<Rightarrow> st\<lparr>console := console st @ [(''Error fetching weather:'', ''TypeError'')]\<rparr>
           | w # _ \<Rightarrow>
               st\<lparr>weatherData := Some \<lparr>temperature = Math_round (main_temp data),
                                       description = entry_description w,
                                       icon = entry_icon w\<rparr>\<rparr>)
      | Rejected error \<Rightarrow>
          st\<lparr>console := console st @ [(''Error fetching weather:'', error)]\<rparr>)"

section \<open>The playback controller\<close>

text \<open>\<^verbatim>\<open>handleSearch\<close> (lines 125 to 127).\<close>

definition handleSearch :: "string \<Rightarrow> App \<Rightarrow> App" where
  "handleSearch v st = st\<lparr>searchQuery := v\<rparr>"

text \<open>
  The test \<^verbatim>\<open>currentStation?.id === station.id\<close>: with no current station the left
  side is \<^verbatim>\<open>undefined\<close>, which no string equals.
\<close>

definition is_current :: "App \<Rightarrow> RadioStation \<Rightarrow> bool" where
  "is_current st station =
     (case currentStation st of None \<Rightarrow> False | Some c \<Rightarrow> id' c = id' station)"

text \<open>\<^verbatim>\<open>handlePlayStation\<close> (lines 135 to 151).\<close>

definition handlePlayStation :: "RadioStation \<Rightarrow> App \<Rightarrow> App" where
  "handlePlayStation station st =
     (if is_current st station then
        st\<lparr>audio := audio st @ [if isPlaying st then Pause else Play],
           isPlaying := \<not> isPlaying st\<rparr>
      else
        st\<lparr>audio := audio st @ [Pause, SetSrc (url station), Play],
           currentStation := Some station,
           isPlaying := True,
           mapCenter := (geo_lat station, geo_long station)\<rparr>)"

text \<open>
  The effect with the dependency \<^verbatim>\<open>[currentStation]\<close> (lines 78 to 82), run after a
  render: \<open>prev\<close> is the state of the render before. React compares the dependency by
  identity; the only assignment to \<^verbatim>\<open>currentStation\<close> stores a station whose id
  differs from the current one's, so a new object is always an unequal value and equality of
  values decides the same.
\<close>

definition effect_currentStation :: "App \<Rightarrow> App \<Rightarrow> App" where
  "effect_currentStation prev st =
     (if currentStation st \<noteq> currentStation prev then
        (case currentStation st of
           None \<Rightarrow> st
         | Some c \<Rightarrow> fetchWeather_send (city c) st)
      else st)"

text \<open>A click on a station's play button: the handler, then the effects of the render it causes.\<close>

definition selectStation :: "RadioStation \<Rightarrow> App \<Rightarrow> App" where
  "selectStation station st = effect_currentStation st (handlePlayStation station st)"

section \<open>Runs of the application\<close>

text \<open>
  Mounting runs both effects once: \<^verbatim>\<open>fetchStations()\<close> is called, and the
  \<^verbatim>\<open>currentStation\<close> effect finds no station. Afterwards the component reacts to
  events, each handled to completion: a promise settling, a keystroke, a click. A run
  may take the events in any order, which covers every order the host can deliver them in.
\<close>

definition App_mounted :: App where
  "App_mounted = fetchStations_send App_init"

datatype event =
    StationsSettled "RadioStation list response"
  | WeatherSettled "weather_body response"
  | Search string
  | Click RadioStation

fun step :: "App \<Rightarrow> event \<Rightarrow> App" where
  "step st (StationsSettled r) = fetchStations_settle r st"
| "step st (WeatherSettled r) = fetchWeather_settle r st"
| "step st (Search v) = handleSearch v st"
| "step st (Click station) = selectStation station st"

definition run :: "event list \<Rightarrow> App" where
  "run evs = foldl step App_mounted evs"

text \<open>A second station in the same city as \<open>jazz_fm\<close>, under another id.\<close>

definition radio_nova :: RadioStation where
  "radio_nova = \<lparr>id' = ''2'', name = ''Radio Nova'', country = ''France'', url = ''nova'',
     favicon = ''...'', geo_lat = 4886 / 100, geo_long = 234 / 100, city = ''Paris''\<rparr>"

section \<open>Unfolding the model\<close>

lemmas app_defs =
  App_init_def App_mounted_def run_def fetchStations_send_def fetchStations_settle_def
  fetchWeather_send_def fetchWeather_settle_def handleSearch_def is_current_def
  handlePlayStation_def effect_currentStation_def selectStation_def

lemmas fixture_defs = jazz_fm_def radio_nova_def

section \<open>Properties of the search filter\<close>

lemma startsWith_at_iff: "startsWith_at s q \<longleftrightarrow> (\<exists>after. s = q @ after)"
  by (induction s q rule: startsWith_at.induct) auto

lemma includes_str_iff: "includes_str s q \<longleftrightarrow> (\<exists>before after. s = before @ q @ after)"
proof (induction s)
  case Nil
  show ?case by (cases q) simp_all
next
  case (Cons c cs)
  have "(\<exists>before after. c # cs = before @ q @ after) \<longleftrightarrow>
        (\<exists>after. c # cs = q @ after) \<or> (\<exists>before after. cs = before @ q @ after)"
    (is "?L \<longleftrightarrow> ?P \<or> ?R")
  proof
    assume ?L
    then obtain before after where eq: "c # cs = before @ q @ after" by blast
    show "?P \<or> ?R"
    proof (cases before)
      case Nil
      with eq show ?thesis by auto
    next
      case (Cons b bs)
      with eq have "cs = bs @ q @ after" by simp
      then show ?thesis by blast
    qed
  next
    assume "?P \<or> ?R"
    then show ?L
    proof
      assume ?P
      then obtain after where "c # cs = [] @ q @ after" by auto
      then show ?L by blast
    next
      assume ?R
      then obtain before after where "cs = before @ q @ after" by blast
      then have "c # cs = (c # before) @ q @ after" by simp
      then show ?L by blast
    qed
  qed
  with Cons show ?case by (simp add: startsWith_at_iff)
qed

text \<open>
  C1. For every station collection and query, the filtered view consists of exactly the
  stations of the collection of which the query is a case-insensitive substring of the
  name, the country or the city, in the order of the collection: it is the collection
  filtered by the specification's predicate, its members are the matching members, and
  the empty query (lower-cased to the empty string) returns the collection as it is.
\<close>

theorem filteredStations_exact:
  "filteredStations toLowerCase S Q = filter (spec_matches toLowerCase Q) S \<and>
   set (filteredStations toLowerCase S Q) = {s. s \<in> set S \<and> spec_matches toLowerCase Q s} \<and>
   (toLowerCase [] = [] \<longrightarrow> filteredStations toLowerCase S [] = S)"
proof -
  have pred: "\<And>s. includes_str (toLowerCase s) (toLowerCase Q) = ci_substring toLowerCase Q s"
    by (simp add: includes_str_iff ci_substring_def)
  have eq: "filteredStations toLowerCase S Q = filter (spec_matches toLowerCase Q) S"
    unfolding filteredStations_def
    by (rule filter_cong) (simp_all add: spec_matches_def pred)
  have mem: "set (filteredStations toLowerCase S Q) =
             {s. s \<in> set S \<and> spec_matches toLowerCase Q s}"
    by (auto simp add: eq)
  have empty: "filteredStations toLowerCase S [] = S" if "toLowerCase [] = []"
  proof -
    have "includes_str s []" for s by (cases s) simp_all
    then show ?thesis using that by (simp add: filteredStations_def)
  qed
  from eq mem empty show ?thesis by blast
qed

theorem filteredStations_exact_witness:
  "ascii_toLowerCase [] = [] \<and>
   filteredStations ascii_toLowerCase [jazz_fm, radio_nova] [] = [jazz_fm, radio_nova] \<and>
   filteredStations ascii_toLowerCase [jazz_fm, radio_nova] ''JAZZ'' =
     filter (spec_matches ascii_toLowerCase ''JAZZ'') [jazz_fm, radio_nova]"
proof -
  have h: "ascii_toLowerCase [] = []" by (simp add: ascii_toLowerCase_def)
  from filteredStations_exact [of ascii_toLowerCase "[jazz_fm, radio_nova]" "[]"]
       filteredStations_exact [of ascii_toLowerCase "[jazz_fm, radio_nova]" "''JAZZ''"] h
  show ?thesis by blast
qed

subsection \<open>Case mappings that work character by character\<close>

text \<open>
  When the case mapping maps each character on its own, as \<open>ascii_toLowerCase\<close> does, the
  specification's predicate says that some contiguous part of the field equals the query
  up to case.
\<close>

lemma ci_substring_charwise:
  "ci_substring (map f) q s \<longleftrightarrow>
   (\<exists>before mid after. s = before @ mid @ after \<and> map f mid = map f q)"
proof
  assume "ci_substring (map f) q s"
  then obtain b a where "map f s = b @ map f q @ a"
    unfolding ci_substring_def by blast
  then have "\<exists>before rest. s = before @ rest \<and> b = map f before \<and>
      map f q @ a = map f rest"
    by (simp only: map_eq_append_conv)
  then obtain before rest where s: "s = before @ rest" and "map f rest = map f q @ a"
    by auto
  then have "\<exists>mid after. rest = mid @ after \<and> map f q = map f mid \<and> a = map f after"
    by (simp only: map_eq_append_conv)
  then obtain mid after where "rest = mid @ after" and "map f mid = map f q"
    by auto
  with s show "\<exists>before mid after. s = before @ mid @ after \<and> map f mid = map f q"
    by blast
next
  assume "\<exists>before mid after. s = before @ mid @ after \<and> map f mid = map f q"
  then obtain before mid after where "s = before @ mid @ after" and "map f mid = map f q"
    by blast
  then have "map f s = map f before @ map f q @ map f after"
    by simp
  then show "ci_substring (map f) q s"
    unfolding ci_substring_def by blast
qed

lemma filteredStations_scenarios:
  "filteredStations ascii_toLowerCase [jazz_fm] ''jazz'' = [jazz_fm] \<and>
   filteredStations ascii_toLowerCase [jazz_fm] ''tokyo'' = [] \<and>
   filteredStations ascii_toLowerCase [radio_nova, jazz_fm] ''FRANCE'' = [radio_nova, jazz_fm]"
  by (simp add: filteredStations_def ascii_toLowerCase_def ascii_lower_def fixture_defs)

section \<open>Properties of the playback controller\<close>

text \<open>
  C2. In every state, for every station whose id differs from the current station's id, or
  when no station is current, \<open>handlePlayStation\<close> calls pause, sets the audio source to
  the station's stream URL and calls play, in this order; the station becomes current, the
  playing flag is true and the map center is the station's coordinates. Nothing else of
  the state changes.
\<close>

theorem handlePlayStation_new_station:
  assumes "currentStation st = None \<or> (\<exists>c. currentStation st = Some c \<and> id' c \<noteq> id' s)"
  shows "audio (handlePlayStation s st) = audio st @ [Pause, SetSrc (url s), Play] \<and>
         currentStation (handlePlayStation s st) = Some s \<and>
         isPlaying (handlePlayStation s st) = True \<and>
         mapCenter (handlePlayStation s st) = (geo_lat s, geo_long s) \<and>
         handlePlayStation s st =
           st\<lparr>audio := audio st @ [Pause, SetSrc (url s), Play], currentStation := Some s,
              isPlaying := True, mapCenter := (geo_lat s, geo_long s)\<rparr>"
proof -
  from assms have "\<not> is_current st s"
    by (auto simp: is_current_def)
  then show ?thesis
    by (simp add: handlePlayStation_def)
qed

theorem handlePlayStation_new_station_witness:
  "currentStation App_mounted = None \<and>
   audio (handlePlayStation jazz_fm App_mounted) = [Pause, SetSrc ''...'', Play] \<and>
   currentStation (handlePlayStation jazz_fm App_mounted) = Some jazz_fm \<and>
   isPlaying (handlePlayStation jazz_fm App_mounted) = True \<and>
   mapCenter (handlePlayStation jazz_fm App_mounted) = (4885 / 100, 235 / 100) \<and>
   currentStation (run [Click jazz_fm]) = Some jazz_fm \<and> id' jazz_fm \<noteq> id' radio_nova \<and>
   audio (handlePlayStation radio_nova (run [Click jazz_fm])) =
     [Pause, SetSrc ''...'', Play, Pause, SetSrc ''nova'', Play] \<and>
   currentStation (handlePlayStation radio_nova (run [Click jazz_fm])) = Some radio_nova"
proof -
  have h1: "currentStation App_mounted = None"
    by (simp add: app_defs)
  have h2: "currentStation (run [Click jazz_fm]) = Some jazz_fm"
    by (simp add: app_defs)
  have h3: "id' jazz_fm \<noteq> id' radio_nova"
    by (simp add: fixture_defs)
  have a0: "audio App_mounted = []"
    by (simp add: app_defs)
  have a1: "audio (run [Click jazz_fm]) = [Pause, SetSrc ''...'', Play]"
    by (simp add: app_defs fixture_defs)
  have u: "url jazz_fm = ''...''" "url radio_nova = ''nova''"
          "geo_lat jazz_fm = 4885 / 100" "geo_long jazz_fm = 235 / 100"
    by (simp_all add: fixture_defs)
  from h1 have p1: "currentStation App_mounted = None \<or>
      (\<exists>c. currentStation App_mounted = Some c \<and> id' c \<noteq> id' jazz_fm)" by simp
  from h2 h3 have p2: "currentStation (run [Click jazz_fm]) = None \<or>
      (\<exists>c. currentStation (run [Click jazz_fm]) = Some c \<and> id' c \<noteq> id' radio_nova)" by simp
  from handlePlayStation_new_station [OF p1] handlePlayStation_new_station [OF p2]
       h1 h2 h3 a0 a1 u
  show ?thesis by simp
qed

text \<open>
  C3. In every state whose current station has the id of the selected station, one call
  of \<open>handlePlayStation\<close> negates the playing flag, calling pause when it was playing and
  play when it was paused; the current station and the map center stay, no source is set
  and no request is sent. Two calls return the playing flag to its original value.
\<close>

theorem handlePlayStation_toggle:
  assumes "currentStation st = Some c" and "id' c = id' s"
  shows "isPlaying (handlePlayStation s st) = (\<not> isPlaying st) \<and>
         currentStation (handlePlayStation s st) = Some c \<and>
         audio (handlePlayStation s st) = audio st @ [if isPlaying st then Pause else Play] \<and>
         mapCenter (handlePlayStation s st) = mapCenter st \<and>
         selectStation s st = handlePlayStation s st \<and>
         requests (selectStation s st) = requests st \<and>
         isPlaying (handlePlayStation s (handlePlayStation s st)) = isPlaying st \<and>
         currentStation (handlePlayStation s (handlePlayStation s st)) = Some c \<and>
         isPlaying (selectStation s (selectStation s st)) = isPlaying st"
proof -
  have tog: "handlePlayStation s st' =
      st'\<lparr>audio := audio st' @ [if isPlaying st' then Pause else Play],
          isPlaying := \<not> isPlaying st'\<rparr>" if "is_current st' s" for st'
    using that by (simp add: handlePlayStation_def)
  have sel: "selectStation s st' = handlePlayStation s st'" if "is_current st' s" for st'
    by (simp add: selectStation_def effect_currentStation_def tog [OF that])
  from assms have cur: "is_current st s"
    by (simp add: is_current_def)
  note once = tog [OF cur]
  have cur': "is_current (handlePlayStation s st) s"
    using cur by (simp add: once is_current_def)
  have twice: "isPlaying (handlePlayStation s (handlePlayStation s st)) = isPlaying st \<and>
      currentStation (handlePlayStation s (handlePlayStation s st)) = currentStation st"
    by (simp add: tog [OF cur']) (simp add: once)
  from assms once twice sel [OF cur] sel [OF cur'] show ?thesis
    by simp
qed

theorem handlePlayStation_toggle_witness:
  "currentStation (run [Click jazz_fm]) = Some jazz_fm \<and>
   isPlaying (run [Click jazz_fm]) = True \<and>
   isPlaying (handlePlayStation jazz_fm (run [Click jazz_fm])) = False \<and>
   audio (handlePlayStation jazz_fm (run [Click jazz_fm])) =
     audio (run [Click jazz_fm]) @ [Pause] \<and>
   isPlaying (handlePlayStation jazz_fm (handlePlayStation jazz_fm (run [Click jazz_fm]))) = True"
proof -
  have h: "currentStation (run [Click jazz_fm]) = Some jazz_fm"
    by (simp add: app_defs)
  have p: "isPlaying (run [Click jazz_fm]) = True"
    by (simp add: app_defs)
  from handlePlayStation_toggle [OF h refl] h p show ?thesis
    by simp
qed

section \<open>Properties of the weather sidebar\<close>

text \<open>
  C4 as stated fails on two stations of one city. After the stations are loaded, selecting
  the second while the first is current leaves the current station's city at Paris and
  still sends a weather request. So a request is not tied to a change of the city.
\<close>

theorem weather_request_city_counterexample:
  "map_option city (currentStation
      (run [StationsSettled (Resolved [jazz_fm, radio_nova]), Click jazz_fm])) = Some ''Paris'' \<and>
   map_option city (currentStation
      (run [StationsSettled (Resolved [jazz_fm, radio_nova]), Click jazz_fm, Click radio_nova])) =
     Some ''Paris'' \<and>
   requests (run [StationsSettled (Resolved [jazz_fm, radio_nova]), Click jazz_fm]) =
     [GetStations, GetWeather ''Paris''] \<and>
   requests (run [StationsSettled (Resolved [jazz_fm, radio_nova]), Click jazz_fm, Click radio_nova]) =
     [GetStations, GetWeather ''Paris'', GetWeather ''Paris''] \<and>
   \<not> ((requests (run [StationsSettled (Resolved [jazz_fm, radio_nova]), Click jazz_fm,
                       Click radio_nova]) \<noteq>
        requests (run [StationsSettled (Resolved [jazz_fm, radio_nova]), Click jazz_fm])) =
       (map_option city (currentStation
          (run [StationsSettled (Resolved [jazz_fm, radio_nova]), Click jazz_fm,
                Click radio_nova])) \<noteq>
        map_option city (currentStation
          (run [StationsSettled (Resolved [jazz_fm, radio_nova]), Click jazz_fm]))))"
  by (simp add: app_defs fixture_defs)

text \<open>
  C4. An event sends a request exactly when it changes the current station, and the request
  is then the weather request for the new current station's city, whether or not that
  city is the previous one's. The current station changes exactly on a click on a station
  whose id differs from the current one's, or with no station current (the first selection
  included); a response settling and a keystroke change neither. A click on the station
  that is already current sends no request and leaves the current station as it is.
\<close>

theorem weather_request_on_station_change:
  "(requests (step st e) \<noteq> requests st) =
     (currentStation (step st e) \<noteq> currentStation st) \<and>
   requests (step st e) =
     requests st @
       (if currentStation (step st e) \<noteq> currentStation st
        then (case currentStation (step st e) of
                None \<Rightarrow> []
              | Some c \<Rightarrow> [GetWeather (city c)])
        else []) \<and>
   (currentStation (step st e) \<noteq> currentStation st) =
     (case e of Click s \<Rightarrow> \<not> is_current st s | _ \<Rightarrow> False) \<and>
   (requests (selectStation s st) \<noteq> requests st) =
     (currentStation (selectStation s st) \<noteq> currentStation st) \<and>
   requests (selectStation s st) =
     requests st @ (if is_current st s then [] else [GetWeather (city s)]) \<and>
   currentStation (selectStation s st) =
     (if is_current st s then currentStation st else Some s)"
proof -
  have sel: "requests (selectStation s' st) =
        requests st @ (if is_current st s' then [] else [GetWeather (city s')]) \<and>
      currentStation (selectStation s' st) =
        (if is_current st s' then currentStation st else Some s') \<and>
      (currentStation (selectStation s' st) \<noteq> currentStation st) = (\<not> is_current st s')" for s'
  proof (cases "is_current st s'")
    case True
    then show ?thesis
      by (simp add: selectStation_def effect_currentStation_def handlePlayStation_def)
  next
    case False
    then have "currentStation st \<noteq> Some s'"
      by (auto simp: is_current_def)
    with False show ?thesis
      by (simp add: selectStation_def effect_currentStation_def handlePlayStation_def
            fetchWeather_send_def)
  qed
  have stp: "(requests (step st e) \<noteq> requests st) =
       (currentStation (step st e) \<noteq> currentStation st) \<and>
     requests (step st e) =
       requests st @
         (if currentStation (step st e) \<noteq> currentStation st
          then (case currentStation (step st e) of
                  None \<Rightarrow> []
                | Some c \<Rightarrow> [GetWeather (city c)])
          else []) \<and>
     (currentStation (step st e) \<noteq> currentStation st) =
       (case e of Click s \<Rightarrow> \<not> is_current st s | _ \<Rightarrow> False)"
  proof (cases e)
    case (StationsSettled r)
    then show ?thesis
      by (cases r) (simp_all add: fetchStations_settle_def Let_def)
  next
    case (WeatherSettled r)
    then show ?thesis
      by (cases r) (simp_all add: fetchWeather_settle_def split: list.split)
  next
    case (Search v)
    then show ?thesis
      by (simp add: handleSearch_def)
  next
    case (Click station)
    with sel [of station] show ?thesis
      by (cases "is_current st station") auto
  qed
  from sel [of s] have "(requests (selectStation s st) \<noteq> requests st) =
      (currentStation (selectStation s st) \<noteq> currentStation st)"
    by (cases "is_current st s") auto
  with sel [of s] stp show ?thesis
    by blast
qed

theorem weather_request_on_station_change_witness:
  "requests (run [StationsSettled (Resolved [jazz_fm, radio_nova])]) = [GetStations] \<and>
   requests (run [StationsSettled (Resolved [jazz_fm, radio_nova]), Click jazz_fm]) =
     [GetStations, GetWeather ''Paris''] \<and>
   currentStation (run [StationsSettled (Resolved [jazz_fm, radio_nova]), Click jazz_fm]) =
     Some jazz_fm \<and>
   requests (run [StationsSettled (Resolved [jazz_fm, radio_nova]), Click jazz_fm,
                  Click jazz_fm]) = [GetStations, GetWeather ''Paris''] \<and>
   currentStation (run [StationsSettled (Resolved [jazz_fm, radio_nova]), Click jazz_fm,
                        Click jazz_fm]) = Some jazz_fm \<and>
   requests (run [StationsSettled (Resolved [jazz_fm, radio_nova]), Click jazz_fm,
                  Search ''nova'', WeatherSettled (Rejected ''timeout'')]) =
     [GetStations, GetWeather ''Paris'']"
proof -
  have r: "requests (run [StationsSettled (Resolved [jazz_fm, radio_nova])]) = [GetStations]"
      "requests (run [StationsSettled (Resolved [jazz_fm, radio_nova]), Click jazz_fm]) =
         [GetStations, GetWeather ''Paris'']"
      "requests (run [StationsSettled (Resolved [jazz_fm, radio_nova]), Click jazz_fm,
                      Click jazz_fm]) = [GetStations, GetWeather ''Paris'']"
      "requests (run [StationsSettled (Resolved [jazz_fm, radio_nova]), Click jazz_fm,
                      Search ''nova'', WeatherSettled (Rejected ''timeout'')]) =
         [GetStations, GetWeather ''Paris'']"
    by (simp_all add: app_defs fixture_defs)
  have c: "currentStation (run [StationsSettled (Resolved [jazz_fm, radio_nova]), Click jazz_fm]) =
         Some jazz_fm"
      "currentStation (run [StationsSettled (Resolved [jazz_fm, radio_nova]), Click jazz_fm,
                            Click jazz_fm]) = Some jazz_fm"
    by (simp_all add: app_defs)
  from weather_request_on_station_change
         [of "run [StationsSettled (Resolved [jazz_fm, radio_nova])]" "Click jazz_fm" jazz_fm]
       r c
  show ?thesis by blast
qed

section \<open>Properties of the station loader\<close>

lemma run_snoc: "run (evs @ [e]) = step (run evs) e"
  by (simp add: run_def)

lemma step_station_requests:
  "filter (\<lambda>r. r = GetStations) (requests (step st e)) =
   filter (\<lambda>r. r = GetStations) (requests st)"
proof (cases e)
  case (StationsSettled r)
  then show ?thesis
    by (cases r) (simp_all add: fetchStations_settle_def Let_def)
next
  case (WeatherSettled r)
  then show ?thesis
    by (cases r) (simp_all add: fetchWeather_settle_def split: list.split)
next
  case (Search v)
  then show ?thesis
    by (simp add: handleSearch_def)
next
  case (Click station)
  then show ?thesis
    by (simp add: selectStation_def effect_currentStation_def handlePlayStation_def
          fetchWeather_send_def)
qed

lemma run_station_requests:
  "filter (\<lambda>r. r = GetStations) (requests (run evs)) = [GetStations]"
proof (induction evs rule: rev_induct)
  case Nil
  show ?case by (simp add: app_defs)
next
  case (snoc e evs)
  then show ?case by (simp add: run_snoc step_station_requests)
qed

text \<open>
  C5. When the station request is rejected, the error is logged with
  \<^verbatim>\<open>console.error\<close>, the loading flag is cleared and nothing else changes: the station
  collection, empty since the start, stays empty, so the filtered view is empty for every
  query. No request is sent by the failure, and in every run the station request is sent
  exactly once.
\<close>

theorem fetchStations_failure:
  "fetchStations_settle (Rejected e) st =
     st\<lparr>console := console st @ [(''Error fetching stations:'', e)], loading := False\<rparr> \<and>
   console (fetchStations_settle (Rejected e) st) =
     console st @ [(''Error fetching stations:'', e)] \<and>
   loading (fetchStations_settle (Rejected e) st) = False \<and>
   stations (fetchStations_settle (Rejected e) st) = stations st \<and>
   stations (run [StationsSettled (Rejected e)]) = [] \<and>
   filteredStations toLowerCase (stations (run [StationsSettled (Rejected e)])) q = [] \<and>
   requests (fetchStations_settle (Rejected e) st) = requests st \<and>
   length (filter (\<lambda>r. r = GetStations) (requests (run evs))) = 1"
proof -
  have one: "fetchStations_settle (Rejected e) st =
     st\<lparr>console := console st @ [(''Error fetching stations:'', e)], loading := False\<rparr>"
    by (simp add: fetchStations_settle_def)
  have none: "stations (run [StationsSettled (Rejected e)]) = []"
    by (simp add: app_defs)
  have view: "filteredStations toLowerCase (stations (run [StationsSettled (Rejected e)])) q = []"
    by (simp add: none filteredStations_def)
  have once: "length (filter (\<lambda>r. r = GetStations) (requests (run evs))) = 1"
    by (simp add: run_station_requests)
  from one none view once show ?thesis
    by simp
qed

text \<open>
  C7. When the station request resolves with at least one station, the map center is
  the latitude and longitude of the first station of the response, the collection is the
  response and the loading flag is cleared; when it resolves with no station, the map
  center is left at the value it had.
\<close>

theorem fetchStations_success_center:
  "mapCenter (fetchStations_settle (Resolved (s # rest)) st) = (geo_lat s, geo_long s) \<and>
   stations (fetchStations_settle (Resolved (s # rest)) st) = s # rest \<and>
   loading (fetchStations_settle (Resolved (s # rest)) st) = False \<and>
   mapCenter (run [StationsSettled (Resolved (s # rest))]) = (geo_lat s, geo_long s) \<and>
   mapCenter (run [StationsSettled (Resolved [jazz_fm])]) = (4885 / 100, 235 / 100) \<and>
   mapCenter (fetchStations_settle (Resolved []) st) = mapCenter st \<and>
   mapCenter (run [StationsSettled (Resolved [])]) = mapCenter App_init"
  by (simp add: app_defs fixture_defs)

text \<open>
  C10. The map center starts at (20, 0). A rejected station request and a response with
  no station leave the map center as it was, so after the load it is still (20, 0).
\<close>

theorem mapCenter_default:
  "mapCenter App_init = (20, 0) \<and>
   mapCenter App_mounted = (20, 0) \<and>
   mapCenter (fetchStations_settle (Rejected e) st) = mapCenter st \<and>
   mapCenter (fetchStations_settle (Resolved []) st) = mapCenter st \<and>
   mapCenter (run [StationsSettled (Rejected e)]) = (20, 0) \<and>
   mapCenter (run [StationsSettled (Resolved [])]) = (20, 0)"
  by (simp add: app_defs)

section \<open>Properties of the weather responses\<close>

lemma Math_round_nearest: "\<bar>of_int (Math_round x) - x\<bar> \<le> \<bar>of_int k - x\<bar>"
proof -
  have lo: "of_int \<lfloor>x\<rfloor> \<le> x" and hi: "x < of_int \<lfloor>x\<rfloor> + 1"
    by linarith+
  show ?thesis
  proof (cases "k \<le> \<lfloor>x\<rfloor>")
    case True
    then have "(of_int k :: rat) \<le> of_int \<lfloor>x\<rfloor>" by simp
    with lo hi show ?thesis
      unfolding Math_round_def by (simp add: abs_le_iff; linarith)
  next
    case False
    then have "\<lfloor>x\<rfloor> + 1 \<le> k" by simp
    then have "(of_int (\<lfloor>x\<rfloor> + 1) :: rat) \<le> of_int k" by (simp only: of_int_le_iff)
    then have "(of_int \<lfloor>x\<rfloor> :: rat) + 1 \<le> of_int k" by simp
    with lo hi show ?thesis
      unfolding Math_round_def by (simp add: abs_le_iff; linarith)
  qed
qed

lemma Math_round_example: "Math_round (216 / 10) = 22"
  by code_simp

text \<open>
  C6. When a weather request is rejected, or its response has no weather entry, the error
  is logged with \<^verbatim>\<open>console.error\<close> and nothing else changes: the weather snapshot is
  the one stored before, also when that snapshot came from an earlier response.
\<close>

theorem fetchWeather_failure:
  "fetchWeather_settle (Rejected e) st =
     st\<lparr>console := console st @ [(''Error fetching weather:'', e)]\<rparr> \<and>
   weatherData (fetchWeather_settle (Rejected e) st) = weatherData st \<and>
   console (fetchWeather_settle (Rejected e) st) =
     console st @ [(''Error fetching weather:'', e)] \<and>
   weatherData (fetchWeather_settle (Resolved \<lparr>main_temp = t, weather = []\<rparr>) st) =
     weatherData st \<and>
   weatherData (fetchWeather_settle (Rejected e)
       (fetchWeather_settle (Resolved \<lparr>main_temp = t, weather = w # ws\<rparr>) st)) =
     Some \<lparr>temperature = Math_round t, description = entry_description w,
          icon = entry_icon w\<rparr>"
  by (simp add: fetchWeather_settle_def)

text \<open>
  C8. When a weather request resolves with a temperature and at least one weather entry,
  the snapshot becomes the temperature rounded to the nearest integer (no integer is
  closer to it) with the description and the icon of the first entry, whatever was stored
  before. A response with temperature 21.6, description "clear sky" and icon "01d" gives
  temperature 22, "clear sky", "01d".
\<close>

theorem fetchWeather_success:
  "weatherData (fetchWeather_settle (Resolved \<lparr>main_temp = t, weather = w # ws\<rparr>) st) =
     Some \<lparr>temperature = Math_round t, description = entry_description w,
          icon = entry_icon w\<rparr> \<and>
   (\<forall>k. \<bar>of_int (Math_round t) - t\<bar> \<le> \<bar>of_int k - t\<bar>) \<and>
   weatherData (fetchWeather_settle
       (Resolved \<lparr>main_temp = 216 / 10,
          weather = [\<lparr>entry_description = ''clear sky'', entry_icon = ''01d''\<rparr>]\<rparr>) st) =
     Some \<lparr>temperature = 22, description = ''clear sky'', icon = ''01d''\<rparr>"
proof -
  have ok: "weatherData (fetchWeather_settle (Resolved \<lparr>main_temp = t', weather = w' # ws'\<rparr>) st) =
     Some \<lparr>temperature = Math_round t', description = entry_description w',
          icon = entry_icon w'\<rparr>" for t' w' ws'
    by (simp add: fetchWeather_settle_def)
  have ex: "weatherData (fetchWeather_settle
       (Resolved \<lparr>main_temp = 216 / 10,
          weather = [\<lparr>entry_description = ''clear sky'', entry_icon = ''01d''\<rparr>]\<rparr>) st) =
     Some \<lparr>temperature = 22, description = ''clear sky'', icon = ''01d''\<rparr>"
    unfolding ok Math_round_example by simp
  have near: "\<forall>k. \<bar>of_int (Math_round t) - t\<bar> \<le> \<bar>of_int k - t\<bar>"
    by (simp add: Math_round_nearest)
  from ok [of t w ws] near ex show ?thesis
    by blast
qed

section \<open>The playback invariant\<close>

lemma step_playing_current:
  assumes "isPlaying st \<longrightarrow> currentStation st \<noteq> None"
  shows "isPlaying (step st e) \<longrightarrow> currentStation (step st e) \<noteq> None"
proof (cases e)
  case (StationsSettled r)
  with assms show ?thesis
    by (cases r) (simp_all add: fetchStations_settle_def Let_def)
next
  case (WeatherSettled r)
  with assms show ?thesis
    by (cases r) (simp_all add: fetchWeather_settle_def split: list.split)
next
  case (Search v)
  with assms show ?thesis
    by (simp add: handleSearch_def)
next
  case (Click station)
  with assms show ?thesis
    by (auto simp: selectStation_def effect_currentStation_def handlePlayStation_def
          fetchWeather_send_def is_current_def split: option.splits)
qed

text \<open>
  C9. In the initial state nothing plays, and in the state after any sequence of events
  from the mounted component (responses settling, keystrokes, clicks on stations), if the
  playing flag is true then a current station is set.
\<close>

theorem playing_has_current_station:
  "\<not> isPlaying App_init \<and> (isPlaying (run evs) \<longrightarrow> currentStation (run evs) \<noteq> None)"
proof -
  have "isPlaying (run evs) \<longrightarrow> currentStation (run evs) \<noteq> None"
  proof (induction evs rule: rev_induct)
    case Nil
    show ?case by (simp add: app_defs)
  next
    case (snoc e evs)
    then show ?case
      unfolding run_snoc by (rule step_playing_current)
  qed
  then show ?thesis
    by (simp add: App_init_def)
qed

theorem playing_has_current_station_witness:
  "isPlaying (run [StationsSettled (Resolved [jazz_fm]), Click jazz_fm]) \<and>
   currentStation (run [StationsSettled (Resolved [jazz_fm]), Click jazz_fm]) \<noteq> None"
proof -
  have h: "isPlaying (run [StationsSettled (Resolved [jazz_fm]), Click jazz_fm])"
    by (simp add: app_defs)
  from playing_has_current_station [of "[StationsSettled (Resolved [jazz_fm]), Click jazz_fm]"] h
  show ?thesis by blast
qed

end
